theory Spec2Isabelle
  imports Main "HOL-Library.Word"
begin

unbundle bit_operations_syntax

chapter \<open>The model\<close>

section \<open>Bytes, strings and outcomes\<close>

text \<open>
  A Go \<open>string\<close> and a Go \<open>[]byte\<close> are both sequences of bytes. Text is kept as
  \<open>string\<close> (a list of 8-bit characters), binary data as a list of 8-bit words; the
  conversions \<open>[]byte(s)\<close> and \<open>string(b)\<close> are the two maps below.
\<close>

type_synonym byte = "8 word"

definition byte_of_char :: "char \<Rightarrow> byte" where
  "byte_of_char c = of_nat (of_char c)"

definition char_of_byte :: "byte \<Rightarrow> char" where
  "char_of_byte b = char_of (unat b)"

definition bytes_of_string :: "string \<Rightarrow> byte list" where
  "bytes_of_string s = map byte_of_char s"

definition string_of_bytes :: "byte list \<Rightarrow> string" where
  "string_of_bytes bs = map char_of_byte bs"

text \<open>
  A call either returns a value, returns one of the package's errors, or panics
  (an index out of range is the only run-time panic the code at hand can raise).
\<close>

datatype runtime_panic = IndexOutOfRange

datatype ('e, 'a) outcome = Return 'a | Err 'e | Panic runtime_panic

text \<open>The built-in \<open>copy(dst, src)\<close>: as many elements as both slices have.\<close>

definition copy :: "'a list \<Rightarrow> 'a list \<Rightarrow> 'a list" where
  "copy dst src = take (length dst) src @ drop (length src) dst"

text \<open>The position of the first occurrence of an element, for the decoding tables.\<close>

fun index_of :: "'a \<Rightarrow> 'a list \<Rightarrow> nat option" where
  "index_of c [] = None"
| "index_of c (x # xs) = (if x = c then Some 0 else map_option Suc (index_of c xs))"

section \<open>encoding/hex\<close>

definition hextable :: string where
  "hextable = ''0123456789abcdef''"

text \<open>\<open>hex.EncodeToString\<close>: two characters per byte, high nibble first.\<close>

fun hex_EncodeToString :: "byte list \<Rightarrow> string" where
  "hex_EncodeToString [] = []"
| "hex_EncodeToString (v # src) =
     hextable ! unat (drop_bit 4 v) # hextable ! unat (v AND 0x0f) # hex_EncodeToString src"

text \<open>
  The table \<open>reverseHexTable\<close>: the value of a hexadecimal digit of either case, and
  \<open>0xff\<close> for every other character.
\<close>

definition reverseHexTable :: "char \<Rightarrow> byte" where
  "reverseHexTable c =
    (case index_of c ''0123456789abcdef'' of
       Some i \<Rightarrow> of_nat i
     | None \<Rightarrow> (case index_of c ''0123456789ABCDEF'' of Some i \<Rightarrow> of_nat i | None \<Rightarrow> 0xff))"

text \<open>
  \<open>hex.DecodeString\<close>; \<open>None\<close> stands for both of its errors (an invalid
  character, an odd length).
\<close>

fun hex_DecodeString :: "string \<Rightarrow> byte list option" where
  "hex_DecodeString (p # q # src) =
     (let a = reverseHexTable p; b = reverseHexTable q
      in if a > 0x0f then None
         else if b > 0x0f then None
         else map_option (\<lambda>dst. (push_bit 4 a OR b) # dst) (hex_DecodeString src))"
| "hex_DecodeString [p] = None"
| "hex_DecodeString [] = Some []"

section \<open>strconv\<close>

definition digits :: string where
  "digits = ''0123456789abcdefghijklmnopqrstuvwxyz''"

text \<open>\<open>formatBits\<close> in base 10: the decimal digits of an unsigned value.\<close>

fun formatBits :: "nat \<Rightarrow> string" where
  "formatBits u = (if u < 10 then [digits ! u] else formatBits (u div 10) @ [digits ! (u mod 10)])"

declare formatBits.simps [simp del]

text \<open>\<open>strconv.FormatInt(i, 10)\<close>, and \<open>strconv.Itoa\<close>, which calls it.\<close>

definition FormatInt :: "int \<Rightarrow> string" where
  "FormatInt i = (if i < 0 then CHR ''-'' # formatBits (nat (- i)) else formatBits (nat i))"

definition Itoa :: "int \<Rightarrow> string" where
  "Itoa i = FormatInt i"

section \<open>encoding/base64\<close>

text \<open>
  \<open>base64.StdEncoding\<close>: the standard alphabet, padded with \<open>=\<close>. The encoder
  packs three bytes into a 24-bit value and emits its four 6-bit groups.
\<close>

definition encodeStd :: string where
  "encodeStd = ''ABCDEFGHIJKLMNOPQRSTUVWXYZabcdefghijklmnopqrstuvwxyz0123456789+/''"

definition padChar :: char where
  "padChar = CHR ''=''"

definition sextet :: "64 word \<Rightarrow> nat \<Rightarrow> char" where
  "sextet val n = encodeStd ! unat (drop_bit n val AND 0x3F)"

fun base64_EncodeToString :: "byte list \<Rightarrow> string" where
  "base64_EncodeToString (a # b # c # src) =
     (let val = push_bit 16 (ucast a) OR push_bit 8 (ucast b) OR ucast c
      in sextet val 18 # sextet val 12 # sextet val 6 # sextet val 0 # base64_EncodeToString src)"
| "base64_EncodeToString [a, b] =
     (let val = push_bit 16 (ucast a) OR push_bit 8 (ucast b)
      in [sextet val 18, sextet val 12, sextet val 6, padChar])"
| "base64_EncodeToString [a] =
     (let val = push_bit 16 (ucast a)
      in [sextet val 18, sextet val 12, padChar, padChar])"
| "base64_EncodeToString [] = []"

text \<open>The decoder's table: the index of a character of the alphabet, \<open>0xff\<close> otherwise.\<close>

definition decodeMap :: "char \<Rightarrow> byte" where
  "decodeMap c = (case index_of c encodeStd of Some i \<Rightarrow> of_nat i | None \<Rightarrow> 0xff)"

definition quantum :: "byte \<Rightarrow> byte \<Rightarrow> byte \<Rightarrow> byte \<Rightarrow> 64 word" where
  "quantum d0 d1 d2 d3 =
     push_bit 18 (ucast d0) OR push_bit 12 (ucast d1) OR push_bit 6 (ucast d2) OR ucast d3"

text \<open>
  Decoding works on groups of four characters. Padding is accepted only in the last
  group, and a group cut short by the end of the input is an error. \<open>None\<close> stands
  for \<open>CorruptInputError\<close>.
\<close>

fun decodeQuanta :: "string \<Rightarrow> byte list option" where
  "decodeQuanta (a # b # c # d # rest) =
     (if decodeMap a = 0xff \<or> decodeMap b = 0xff then None
      else if decodeMap c = 0xff then
        (if c = padChar \<and> d = padChar \<and> rest = []
         then Some [ucast (drop_bit 16 (quantum (decodeMap a) (decodeMap b) 0 0))]
         else None)
      else if decodeMap d = 0xff then
        (if d = padChar \<and> rest = []
         then (let val = quantum (decodeMap a) (decodeMap b) (decodeMap c) 0
               in Some [ucast (drop_bit 16 val), ucast (drop_bit 8 val)])
         else None)
      else
        (let val = quantum (decodeMap a) (decodeMap b) (decodeMap c) (decodeMap d)
         in map_option (\<lambda>out. ucast (drop_bit 16 val) # ucast (drop_bit 8 val) # ucast val # out)
              (decodeQuanta rest)))"
| "decodeQuanta [] = Some []"
| "decodeQuanta _ = None"

text \<open>\<open>DecodeString\<close> skips carriage returns and line feeds wherever they stand.\<close>

definition base64_DecodeString :: "string \<Rightarrow> byte list option" where
  "base64_DecodeString s = decodeQuanta (filter (\<lambda>c. c \<noteq> CHR 0x0A \<and> c \<noteq> CHR 0x0D) s)"

section \<open>The stream cipher\<close>

text \<open>
  \<open>golang.org/x/crypto/chacha20\<close> is an external library. Its key stream is the
  parameter \<open>ks\<close>: the byte at a position of the stream for a key and a nonce. The
  constructor keeps the library's checks of the two lengths. The library's bound on the
  length of one key stream (\<open>2^32\<close> blocks of 64 bytes) is not part of the model.
\<close>

type_synonym keystream = "byte list \<Rightarrow> byte list \<Rightarrow> nat \<Rightarrow> byte"

definition NewUnauthenticatedCipher ::
  "keystream \<Rightarrow> byte list \<Rightarrow> byte list \<Rightarrow> (nat \<Rightarrow> byte) option" where
  "NewUnauthenticatedCipher ks key nonce =
    (if length key \<noteq> 32 then None
     else if length nonce = 24 then Some (ks key nonce)
     else if length nonce \<noteq> 12 then None
     else Some (ks key nonce))"

definition XORKeyStream :: "(nat \<Rightarrow> byte) \<Rightarrow> byte list \<Rightarrow> byte list" where
  "XORKeyStream cipher src = map (\<lambda>(i, b). b XOR cipher i) (enumerate 0 src)"

section \<open>The elliptic-curve library\<close>

text \<open>
  \<open>github.com/btcsuite/btcd/btcec/v2\<close> is an external library. Its operations on
  curve points are the fields of a record that the model takes as a parameter:
  \<open>ParsePubKey\<close> on a serialized key, the scalar multiplication and the big-endian
  x-coordinate behind \<open>GenerateSharedSecret\<close>, and, for stating what a key pair is, the
  negation of a point and the generator.
\<close>

record 'pt btcec =
  ParsePubKey :: "byte list \<Rightarrow> 'pt option"
  ScalarMult :: "nat \<Rightarrow> 'pt \<Rightarrow> 'pt"
  XBytes :: "'pt \<Rightarrow> byte list"
  Negate :: "'pt \<Rightarrow> 'pt"
  Generator :: 'pt

text \<open>The order of the group of secp256k1.\<close>

definition curve_N :: nat where
  "curve_N = 0xFFFFFFFFFFFFFFFFFFFFFFFFFFFFFFFEBAAEDCE6AF48A03BBFD25E8CD0364141"

text \<open>A byte sequence read as a big-endian number.\<close>

definition be_nat :: "byte list \<Rightarrow> nat" where
  "be_nat bs = foldl (\<lambda>acc b. acc * 256 + unat b) 0 bs"

text \<open>
  \<open>btcec.PrivKeyFromBytes\<close> has no error result: it reads at most the first 32 bytes as
  a big-endian number and reduces it modulo the group order.
\<close>

definition PrivKeyFromBytes :: "byte list \<Rightarrow> nat" where
  "PrivKeyFromBytes pk = be_nat (take 32 pk) mod curve_N"

text \<open>\<open>btcec.GenerateSharedSecret\<close>: the x-coordinate of the scalar multiple.\<close>

definition GenerateSharedSecret :: "'pt btcec \<Rightarrow> nat \<Rightarrow> 'pt \<Rightarrow> byte list" where
  "GenerateSharedSecret L privkey pubkey = XBytes L (ScalarMult L privkey pubkey)"

section \<open>Package nip44\<close>

text \<open>
  The package builds its errors with \<open>fmt.Errorf\<close>; one constructor stands for each
  message (the wrapped cause is left out). In the words of the specification:
  the two decoding errors are its \<open>DecodeError\<close>, \<open>ErrParsingPublicKey\<close> its
  \<open>InvalidKeyError\<close>, \<open>ErrInvalidBase64\<close> its \<open>FormatError\<close>, \<open>ErrUnknownVersion\<close>
  its \<open>UnsupportedVersionError\<close> and \<open>ErrPayloadTooSmall\<close> its
  \<open>TruncatedPayloadError\<close>.
\<close>

datatype nip44_error =
    ErrDecodingPrivateKey
  | ErrDecodingPublicKey
  | ErrParsingPublicKey
  | ErrCreatingNonce
  | ErrCreatingCipher
  | ErrInvalidBase64
  | ErrUnknownVersion byte
  | ErrPayloadTooSmall nat

type_synonym hasher = "byte list \<Rightarrow> byte list"

text \<open>\<open>ComputeSharedSecret\<close>; \<open>sha256.Sum256\<close> is the parameter \<open>sha256\<close>.\<close>

definition ComputeSharedSecret ::
  "'pt btcec \<Rightarrow> hasher \<Rightarrow> string \<Rightarrow> string \<Rightarrow> (nip44_error, byte list) outcome" where
  "ComputeSharedSecret L sha256 pub sk =
    (case hex_DecodeString sk of
       None \<Rightarrow> Err ErrDecodingPrivateKey
     | Some privKeyBytes \<Rightarrow>
        (let privKey = PrivKeyFromBytes privKeyBytes in
         case hex_DecodeString (''02'' @ pub) of
           None \<Rightarrow> Err ErrDecodingPublicKey
         | Some pubKeyBytes \<Rightarrow>
            (case ParsePubKey L pubKeyBytes of
               None \<Rightarrow> Err ErrParsingPublicKey
             | Some pubKey \<Rightarrow>
                (let sharedSecret = GenerateSharedSecret L privKey pubKey;
                     hash = sha256 sharedSecret
                 in Return hash))))"

definition encryptWithNonce ::
  "keystream \<Rightarrow> string \<Rightarrow> byte list \<Rightarrow> byte list \<Rightarrow> (nip44_error, string) outcome" where
  "encryptWithNonce ks message key nonce =
    (case NewUnauthenticatedCipher ks key nonce of
       None \<Rightarrow> Err ErrCreatingCipher
     | Some cipher \<Rightarrow>
        (let msg = XORKeyStream cipher (bytes_of_string message);
             payload = replicate (1 + 24 + length msg) 0;
             payload = payload[0 := 1];
             payload = take 1 payload @ copy (take 24 (drop 1 payload)) nonce @ drop 25 payload;
             payload = take 25 payload @ copy (drop 25 payload) msg
         in Return (base64_EncodeToString payload)))"

text \<open>
  \<open>Encrypt\<close>. The random source is the parameter \<open>rnd\<close>: either it fails, or it
  delivers the bytes that \<open>rand.Read\<close> writes into the 24-byte buffer.
\<close>

definition Encrypt ::
  "keystream \<Rightarrow> byte list option \<Rightarrow> string \<Rightarrow> byte list \<Rightarrow> (nip44_error, string) outcome" where
  "Encrypt ks rnd message key =
    (let nonce = replicate 24 0 in
     case rnd of
       None \<Rightarrow> Err ErrCreatingNonce
     | Some r \<Rightarrow> encryptWithNonce ks message key (copy nonce r))"

text \<open>\<open>Decrypt\<close>. It reads \<open>data[0]\<close> before any check of the length.\<close>

definition Decrypt :: "keystream \<Rightarrow> string \<Rightarrow> byte list \<Rightarrow> (nip44_error, string) outcome" where
  "Decrypt ks payload key =
    (case base64_DecodeString payload of
       None \<Rightarrow> Err ErrInvalidBase64
     | Some data \<Rightarrow>
        (case data of
           [] \<Rightarrow> Panic IndexOutOfRange
         | d0 # _ \<Rightarrow>
            if d0 \<noteq> 1 then Err (ErrUnknownVersion d0)
            else if length data \<le> 25 then Err (ErrPayloadTooSmall (length data))
            else
              (let nonce = take 24 (drop 1 data);
                   msg = drop 25 data
               in case NewUnauthenticatedCipher ks key nonce of
                    None \<Rightarrow> Err ErrCreatingCipher
                  | Some cipher \<Rightarrow> Return (string_of_bytes (XORKeyStream cipher msg)))))"

section \<open>Events\<close>

text \<open>
  The struct \<open>Event\<close>. \<open>Timestamp\<close> is declared outside the files at hand; the code
  converts it with \<open>int64(evt.CreatedAt)\<close>, so it is kept as a signed 64-bit value, as is
  \<open>Kind\<close> (a Go \<open>int\<close>, 64 bits wide on 64-bit platforms).
\<close>

record Event =
  ID :: string
  PubKey :: string
  CreatedAt :: "64 word"
  Kind :: "64 word"
  Tags :: "string list list"
  Content :: string
  Sig :: string

text \<open>
  \<open>escapeString(dst, s)\<close> is called by \<open>serializeEventInto\<close> but defined outside the
  files at hand. The serializer takes it as the parameter \<open>esc\<close>: a function from the
  buffer and the string to the new buffer.
\<close>

type_synonym escaper = "string \<Rightarrow> string \<Rightarrow> string"

text \<open>The inner loop over the items of one tag; \<open>i\<close> is the loop index.\<close>

fun serializeTagItems :: "escaper \<Rightarrow> nat \<Rightarrow> string list \<Rightarrow> string \<Rightarrow> string" where
  "serializeTagItems esc i [] dst = dst"
| "serializeTagItems esc i (s # tag) dst =
     serializeTagItems esc (Suc i) tag (esc (if i > 0 then dst @ '','' else dst) s)"

text \<open>The outer loop over the tags.\<close>

fun serializeTags :: "escaper \<Rightarrow> nat \<Rightarrow> string list list \<Rightarrow> string \<Rightarrow> string" where
  "serializeTags esc i [] dst = dst"
| "serializeTags esc i (tag # tags) dst =
     serializeTags esc (Suc i) tags
       (serializeTagItems esc 0 tag ((if i > 0 then dst @ '','' else dst) @ ''['') @ '']'')"

definition serializeEventInto :: "escaper \<Rightarrow> Event \<Rightarrow> string \<Rightarrow> string" where
  "serializeEventInto esc evt dst0 =
    (let dst = dst0 @ ''[0,\"'';
         dst = dst @ PubKey evt;
         dst = dst @ ''\",'';
         dst = dst @ FormatInt (sint (CreatedAt evt));
         dst = dst @ '','';
         dst = dst @ Itoa (sint (Kind evt));
         dst = dst @ '','';
         dst = dst @ ''['';
         dst = serializeTags esc 0 (Tags evt) dst;
         dst = dst @ ''],'';
         dst = esc dst (Content evt);
         dst = dst @ '']''
     in dst)"

text \<open>\<open>Serialize\<close> starts from an empty buffer (its capacity is only a hint).\<close>

definition Serialize :: "escaper \<Rightarrow> Event \<Rightarrow> string" where
  "Serialize esc evt = serializeEventInto esc evt []"

text \<open>
  \<open>crypto.Keccak256Hash\<close> belongs to an external library and is the parameter
  \<open>keccak\<close>; its result is a 32-byte array.
\<close>

definition prefixedMessage :: "string \<Rightarrow> string" where
  "prefixedMessage message =
     (CHR 0x19 # ''Ethereum Signed Message:'' @ [CHR 0x0A])
       @ FormatInt (int (length message)) @ message"

definition GetID :: "hasher \<Rightarrow> escaper \<Rightarrow> Event \<Rightarrow> string" where
  "GetID keccak esc evt =
    (let message = Serialize esc evt;
         h = keccak (bytes_of_string (prefixedMessage message))
     in hex_EncodeToString h)"

text \<open>
  The loop of \<open>CheckID\<close>. Indexing \<open>evt.ID\<close> past its end panics; the hash has 32
  bytes, so \<open>h[i]\<close> is always in range.
\<close>

function CheckID_loop :: "byte list \<Rightarrow> string \<Rightarrow> nat \<Rightarrow> (unit, bool) outcome" where
  "CheckID_loop h ident i =
    (if i < 32 then
       (let b = hextable ! unat (drop_bit 4 (h ! i)) in
        if length ident \<le> i * 2 then Panic IndexOutOfRange
        else if b \<noteq> ident ! (i * 2) then Return False
        else
          (let b = hextable ! unat ((h ! i) AND 0x0f) in
           if length ident \<le> i * 2 + 1 then Panic IndexOutOfRange
           else if b \<noteq> ident ! (i * 2 + 1) then Return False
           else CheckID_loop h ident (i + 1)))
     else Return True)"
  by pat_completeness auto
termination
  by (relation "measure (\<lambda>(h, ident, i). 32 - i)") auto

declare CheckID_loop.simps [simp del]

definition CheckID :: "hasher \<Rightarrow> escaper \<Rightarrow> Event \<Rightarrow> (unit, bool) outcome" where
  "CheckID keccak esc evt =
    (let message = Serialize esc evt;
         h = keccak (bytes_of_string (prefixedMessage message))
     in CheckID_loop h (ID evt) 0)"

section \<open>The escaping routine\<close>

definition dquote :: char where
  "dquote = CHR 0x22"

definition backslash :: char where
  "backslash = CHR 0x5C"

text \<open>
  Modelled from the spec: \<open>escapeString\<close>, which is not in the files at hand. The
  specification says that it escapes quote and backslash characters, control characters
  and the Unicode line and paragraph separators (U+2028 and U+2029, three bytes each in
  UTF-8) with minimal standard escape sequences, so that the result is a quoted string
  literal. The serializer above does not depend on this definition; it instantiates the
  parameter \<open>esc\<close> where a concrete routine is needed.
\<close>

definition escapeByte :: "char \<Rightarrow> string" where
  "escapeByte c =
    (if c = dquote then [backslash, dquote]
     else if c = backslash then [backslash, backslash]
     else if (0x20 :: nat) \<le> of_char c then [c]
     else if c = CHR 0x08 then [backslash, CHR ''b'']
     else if c = CHR 0x09 then [backslash, CHR ''t'']
     else if c = CHR 0x0A then [backslash, CHR ''n'']
     else if c = CHR 0x0C then [backslash, CHR ''f'']
     else if c = CHR 0x0D then [backslash, CHR ''r'']
     else [backslash, CHR ''u'', CHR ''0'', CHR ''0'',
           hextable ! (of_char c div 16), hextable ! (of_char c mod 16)])"

fun escapeChars :: "string \<Rightarrow> string" where
  "escapeChars [] = []"
| "escapeChars (c # s) =
    (if c = CHR 0xE2 \<and> take 2 s = [CHR 0x80, CHR 0xA8]
       then backslash # ''u2028'' @ escapeChars (drop 2 s)
     else if c = CHR 0xE2 \<and> take 2 s = [CHR 0x80, CHR 0xA9]
       then backslash # ''u2029'' @ escapeChars (drop 2 s)
     else escapeByte c @ escapeChars s)"

definition escapeString :: escaper where
  "escapeString dst s = dst @ [dquote] @ escapeChars s @ [dquote]"

section \<open>Notions used in the statements\<close>

text \<open>An escaping routine only appends to the buffer it is given.\<close>

definition appends_only :: "escaper \<Rightarrow> bool" where
  "appends_only esc \<longleftrightarrow> (\<forall>dst s. esc dst s = dst @ esc [] s)"

text \<open>
  A character that needs no escaping, and an escaping routine that puts a string of
  such characters between two quote characters, unchanged.
\<close>

definition is_plain :: "char \<Rightarrow> bool" where
  "is_plain c \<longleftrightarrow> (0x20 :: nat) \<le> of_char c \<and> c \<noteq> dquote \<and> c \<noteq> backslash \<and> c \<noteq> CHR 0xE2"

definition quotes_plain :: "escaper \<Rightarrow> bool" where
  "quotes_plain esc \<longleftrightarrow>
     (\<forall>dst s. list_all is_plain s \<longrightarrow> esc dst s = dst @ [dquote] @ s @ [dquote])"

text \<open>Strings joined with a separator, and the text of one tag.\<close>

fun joinWith :: "string \<Rightarrow> string list \<Rightarrow> string" where
  "joinWith sep [] = []"
| "joinWith sep [x] = x"
| "joinWith sep (x # y # xs) = x @ sep @ joinWith sep (y # xs)"

definition tagText :: "escaper \<Rightarrow> string list \<Rightarrow> string" where
  "tagText esc tag = ''['' @ joinWith '','' (map (esc []) tag) @ '']''"

text \<open>
  The lowercase hexadecimal rendering of a byte sequence, by division: the reading of
  "renders the digest as lowercase hex" that \<open>hex_EncodeToString\<close> is compared with.
\<close>

definition hex_digit :: "nat \<Rightarrow> char" where
  "hex_digit n = ''0123456789abcdef'' ! n"

definition lower_hex :: "byte list \<Rightarrow> string" where
  "lower_hex bs = concat (map (\<lambda>b. [hex_digit (unat b div 16), hex_digit (unat b mod 16)]) bs)"

text \<open>The number that a string of decimal digits denotes.\<close>

definition decimal_value :: "string \<Rightarrow> nat" where
  "decimal_value s = foldl (\<lambda>acc c. acc * 10 + (of_char c - 48)) 0 s"

text \<open>A string that \<open>hex.DecodeString\<close> accepts: hexadecimal digits, an even number of them.\<close>

definition is_hex_char :: "char \<Rightarrow> bool" where
  "is_hex_char c \<longleftrightarrow> c \<in> set ''0123456789abcdef'' \<or> c \<in> set ''0123456789ABCDEF''"

definition well_formed_hex :: "string \<Rightarrow> bool" where
  "well_formed_hex s \<longleftrightarrow> even (length s) \<and> list_all is_hex_char s"

text \<open>Encrypting and then decrypting with the same key.\<close>

definition roundtrip ::
  "keystream \<Rightarrow> byte list option \<Rightarrow> string \<Rightarrow> byte list \<Rightarrow> (nip44_error, string) outcome" where
  "roundtrip ks rnd message key =
    (case Encrypt ks rnd message key of
       Return payload \<Rightarrow> Decrypt ks payload key
     | Err e \<Rightarrow> Err e
     | Panic p \<Rightarrow> Panic p)"

text \<open>
  Key pairs. A private key is a scalar, written as the hexadecimal text of its 32
  big-endian bytes; its x-only public key is the hexadecimal text of the x-coordinate of
  the scalar multiple of the generator.
\<close>

fun be_bytes :: "nat \<Rightarrow> nat \<Rightarrow> byte list" where
  "be_bytes 0 n = []"
| "be_bytes (Suc k) n = be_bytes k (n div 256) @ [of_nat n]"

definition private_key_hex :: "nat \<Rightarrow> string" where
  "private_key_hex a = hex_EncodeToString (be_bytes 32 a)"

definition x_only_pubkey_hex :: "'pt btcec \<Rightarrow> nat \<Rightarrow> string" where
  "x_only_pubkey_hex L a = hex_EncodeToString (XBytes L (ScalarMult L a (Generator L)))"

text \<open>
  What the symmetry of the shared secret needs of the curve library: scalar
  multiplications of the generator commute; negation commutes with scalar
  multiplication and keeps the x-coordinate; and parsing the x-coordinate of a public
  key with the prefix \<open>02\<close> (even y) gives that key or its negation.
\<close>

definition ecdh_laws :: "'pt btcec \<Rightarrow> bool" where
  "ecdh_laws L \<longleftrightarrow>
     (\<forall>a b. ScalarMult L a (ScalarMult L b (Generator L)) = ScalarMult L b (ScalarMult L a (Generator L)))
   \<and> (\<forall>a P. ScalarMult L a (Negate L P) = Negate L (ScalarMult L a P))
   \<and> (\<forall>P. XBytes L (Negate L P) = XBytes L P)
   \<and> (\<forall>b. 0 < b \<and> b < curve_N \<longrightarrow>
          ParsePubKey L (2 # XBytes L (ScalarMult L b (Generator L))) = Some (ScalarMult L b (Generator L))
        \<or> ParsePubKey L (2 # XBytes L (ScalarMult L b (Generator L))) = Some (Negate L (ScalarMult L b (Generator L))))"

section \<open>Concrete inputs\<close>

text \<open>The event of the canonicalization example.\<close>

definition example_event :: Event where
  "example_event = \<lparr> ID = [], PubKey = replicate 64 CHR ''a'', CreatedAt = 1700000000, Kind = 1,
     Tags = [[''e'', ''abc'']], Content = ''hi'', Sig = [] \<rparr>"

text \<open>
  Stand-ins for the library parameters, used only to run the model on concrete inputs.
  \<open>demo_keystream\<close> and \<open>demo_hash\<close> are not ciphers or hash functions.
  \<open>dlog_curve\<close> represents a point of the cyclic group of order \<open>curve_N\<close> by its
  discrete logarithm: the generator is 1, scalar multiplication is multiplication modulo
  the order, the "x-coordinate" of \<open>k\<close> is the smaller of \<open>k\<close> and \<open>curve_N - k\<close>
  (a point and its negation share it), and \<open>ParsePubKey\<close> with the prefix \<open>02\<close>
  yields that smaller representative.
\<close>

definition demo_keystream :: keystream where
  "demo_keystream key nonce i = (key ! (i mod 32)) XOR (nonce ! (i mod 24)) XOR of_nat i"

definition demo_hash :: hasher where
  "demo_hash bs = take 32 (rev bs @ replicate 32 0)"

definition dlog_curve :: "int btcec" where
  "dlog_curve =
    \<lparr> ParsePubKey = (\<lambda>bs. case bs of
         [] \<Rightarrow> None
       | f # xs \<Rightarrow> if f = 2 \<and> length xs = 32 \<and> 0 < be_nat xs \<and> 2 * be_nat xs < curve_N
                   then Some (int (be_nat xs)) else None),
      ScalarMult = (\<lambda>k P. (int k * P) mod int curve_N),
      XBytes = (\<lambda>P. be_bytes 32 (nat (min (P mod int curve_N) ((- P) mod int curve_N)))),
      Negate = (\<lambda>P. (- P) mod int curve_N),
      Generator = 1 \<rparr>"

chapter \<open>Properties\<close>

section \<open>Decimal text\<close>

lemma digit_char:
  "d < 10 \<Longrightarrow> of_char (digits ! d) = (48 + d :: nat) \<and> digits ! d \<in> set ''0123456789''"
proof -
  have "list_all (\<lambda>d. of_char (digits ! d) = (48 + d :: nat) \<and> digits ! d \<in> set ''0123456789'')
          [0..<10]"
    by (simp add: digits_def upt_rec numeral_eq_Suc)
  then show "d < 10 \<Longrightarrow> ?thesis" by (simp add: list_all_iff)
qed

text \<open>\<open>formatBits\<close> writes decimal digits only, and they denote the number.\<close>

lemma formatBits_digits: "list_all (\<lambda>c. c \<in> set ''0123456789'') (formatBits n)"
proof (induction n rule: formatBits.induct)
  case (1 u)
  show ?case
  proof (cases "u < 10")
    case True
    then show ?thesis
      using digit_char [of u] by (subst formatBits.simps) simp
  next
    case False
    then show ?thesis
      using "1.IH" digit_char [of "u mod 10"] by (subst formatBits.simps) simp
  qed
qed

lemma decimal_value_snoc: "decimal_value (s @ [c]) = decimal_value s * 10 + (of_char c - 48)"
  by (simp add: decimal_value_def)

lemma formatBits_value: "decimal_value (formatBits n) = n"
proof (induction n rule: formatBits.induct)
  case (1 u)
  show ?case
  proof (cases "u < 10")
    case True
    then show ?thesis
      using digit_char [of u] by (subst formatBits.simps) (simp add: decimal_value_def)
  next
    case False
    then show ?thesis
      using "1.IH" digit_char [of "u mod 10"]
      by (subst formatBits.simps) (simp add: decimal_value_snoc)
  qed
qed

lemma FormatInt_nat: "FormatInt (int n) = formatBits n"
  by (simp add: FormatInt_def)

section \<open>Hexadecimal text\<close>

lemma unat_hi_nibble: "unat (drop_bit 4 (v :: byte)) = unat v div 16"
  by (simp add: drop_bit_eq_div unat_div)

lemma unat_lo_nibble: "unat ((v :: byte) AND 0x0f) = unat v mod 16"
proof -
  have "v AND 0x0f = take_bit 4 v"
    by (simp add: take_bit_eq_mask mask_eq_exp_minus_1)
  then show ?thesis
    by (simp add: take_bit_eq_mod unat_mod)
qed

lemma hi_nibble_less: "unat (drop_bit 4 (v :: byte)) < 16"
  by (simp add: unat_hi_nibble) (use unsigned_less [of v, where 'a = nat] in simp)

lemma lo_nibble_less: "unat ((v :: byte) AND 0x0f) < 16"
  by (simp add: unat_lo_nibble)

lemma hex_EncodeToString_lower_hex: "hex_EncodeToString h = lower_hex h"
  by (induction h)
     (simp_all add: lower_hex_def hex_digit_def hextable_def unat_hi_nibble unat_lo_nibble)

lemma length_hex_EncodeToString [simp]: "length (hex_EncodeToString h) = 2 * length h"
  by (induction h) simp_all

lemma index_of_None_iff: "index_of c xs = None \<longleftrightarrow> c \<notin> set xs"
  by (induction xs) auto

lemma index_of_less: "index_of c xs = Some i \<Longrightarrow> i < length xs"
  by (induction xs arbitrary: i) (auto split: if_splits)

lemma nibble_le: "i < 16 \<Longrightarrow> (of_nat i :: byte) \<le> 0x0f"
  by (simp add: word_le_nat_alt unat_of_nat)

lemma reverseHexTable_valid_iff: "reverseHexTable c \<le> 0x0f \<longleftrightarrow> is_hex_char c"
proof (cases "index_of c ''0123456789abcdef''")
  case (Some i)
  then have "i < 16" using index_of_less by fastforce
  moreover from Some have "c \<in> set ''0123456789abcdef''"
    using index_of_None_iff [of c "''0123456789abcdef''"] by auto
  ultimately show ?thesis
    using Some by (auto simp: reverseHexTable_def is_hex_char_def nibble_le)
next
  case None
  note lower = this
  show ?thesis
  proof (cases "index_of c ''0123456789ABCDEF''")
    case (Some i)
    then have "i < 16" using index_of_less by fastforce
    moreover from Some have "c \<in> set ''0123456789ABCDEF''"
      using index_of_None_iff [of c "''0123456789ABCDEF''"] by auto
    ultimately show ?thesis
      using Some lower by (auto simp: reverseHexTable_def is_hex_char_def nibble_le)
  next
    case None
    from lower have "c \<notin> set ''0123456789abcdef''"
      by (rule index_of_None_iff [THEN iffD1])
    moreover from None have "c \<notin> set ''0123456789ABCDEF''"
      by (rule index_of_None_iff [THEN iffD1])
    ultimately have "\<not> is_hex_char c" unfolding is_hex_char_def by blast
    then show ?thesis using None lower by (simp add: reverseHexTable_def)
  qed
qed

lemma reverseHexTable_invalid_iff: "0x0f < reverseHexTable c \<longleftrightarrow> \<not> is_hex_char c"
  using reverseHexTable_valid_iff [of c] by (simp add: not_le [symmetric])

text \<open>\<open>hex.DecodeString\<close> fails exactly on the strings that are not well-formed.\<close>

lemma hex_DecodeString_defined_iff: "hex_DecodeString s \<noteq> None \<longleftrightarrow> well_formed_hex s"
proof (induction s rule: hex_DecodeString.induct)
  case (1 p q src)
  show ?case
  proof (cases "is_hex_char p \<and> is_hex_char q")
    case True
    then have "(hex_DecodeString src \<noteq> None) = well_formed_hex src"
      using "1.IH" [OF refl refl] by (simp add: reverseHexTable_invalid_iff)
    with True show ?thesis
      by (simp add: Let_def well_formed_hex_def reverseHexTable_invalid_iff)
  next
    case False
    then show ?thesis
      by (auto simp: Let_def well_formed_hex_def reverseHexTable_invalid_iff)
  qed
qed (simp_all add: well_formed_hex_def)

lemma reverseHexTable_table:
  "list_all (\<lambda>i. reverseHexTable (hextable ! i) = of_nat i) [0..<16]"
  by code_simp

lemma reverseHexTable_hextable: "i < 16 \<Longrightarrow> reverseHexTable (hextable ! i) = of_nat i"
  using reverseHexTable_table by (simp add: list_all_iff)

lemma nibbles_join: "push_bit 4 (drop_bit 4 v) OR (v AND 0x0f) = (v :: byte)"
proof -
  have m: "(0x0f :: byte) = mask 4" by (simp add: mask_eq_exp_minus_1)
  show ?thesis
    unfolding m
    by (rule bit_word_eqI; simp add: bit_simps cong: conj_cong; auto)
qed

text \<open>Decoding inverts encoding.\<close>

lemma hex_roundtrip: "hex_DecodeString (hex_EncodeToString bs) = Some bs"
proof (induction bs)
  case Nil
  show ?case by simp
next
  case (Cons v bs)
  have hi: "reverseHexTable (hextable ! unat (drop_bit 4 v)) = drop_bit 4 v"
    by (simp add: reverseHexTable_hextable [OF hi_nibble_less])
  have lo: "reverseHexTable (hextable ! unat (v AND 0x0f)) = v AND 0x0f"
    by (simp add: reverseHexTable_hextable [OF lo_nibble_less])
  have hv: "\<not> 0x0f < drop_bit 4 v"
    using hi_nibble_less [of v] by (simp add: word_less_nat_alt)
  have lv: "\<not> 0x0f < (v AND 0x0f)"
    using lo_nibble_less [of v] by (simp add: word_less_nat_alt)
  show ?case
    using Cons.IH hv lv
    by (simp only: hex_EncodeToString.simps hex_DecodeString.simps Let_def hi lo if_False
        nibbles_join option.map)
qed

lemma hex_DecodeString_02:
  "hex_DecodeString (''02'' @ s) = map_option (\<lambda>dst. 2 # dst) (hex_DecodeString s)"
  by (simp add: reverseHexTable_def Let_def)

section \<open>Base64\<close>

lemma decodeMap_table: "list_all (\<lambda>i. decodeMap (encodeStd ! i) = of_nat i) [0..<64]"
  by code_simp

lemma decodeMap_index: "i < 64 \<Longrightarrow> decodeMap (encodeStd ! i) = of_nat i"
  using decodeMap_table by (simp add: list_all_iff)

lemma mask6: "(0x3F :: 64 word) = mask 6"
  by (simp add: mask_eq_exp_minus_1)

text \<open>The four 6-bit groups of a value put together again are its low 24 bits.\<close>

lemma requantum:
  fixes val :: "64 word"
  shows "quantum (ucast (drop_bit 18 val AND 0x3F)) (ucast (drop_bit 12 val AND 0x3F))
      (ucast (drop_bit 6 val AND 0x3F)) (ucast (val AND 0x3F)) = take_bit 24 val"
  unfolding quantum_def mask6
  apply (rule bit_word_eqI)
  apply (simp add: bit_simps cong: conj_cong)
  subgoal for n
    by (cases "bit val n"; simp; arith)
  done

lemma bytes3:
  fixes a b c :: byte
  defines "val \<equiv> push_bit 16 (ucast a) OR push_bit 8 (ucast b) OR ucast c :: 64 word"
  shows "ucast (drop_bit 16 (take_bit 24 val)) = a"
    and "ucast (drop_bit 8 (take_bit 24 val)) = b"
    and "ucast (take_bit 24 val) = c"
  unfolding val_def
  subgoal by (rule bit_word_eqI; simp add: bit_simps cong: conj_cong; auto dest: bit_imp_le_length)
  subgoal by (rule bit_word_eqI; simp add: bit_simps cong: conj_cong; auto dest: bit_imp_le_length)
  subgoal by (rule bit_word_eqI; simp add: bit_simps cong: conj_cong; auto dest: bit_imp_le_length)
  done

lemma bytes2:
  fixes a b :: byte
  defines "val \<equiv> push_bit 16 (ucast a) OR push_bit 8 (ucast b) :: 64 word"
  defines "val' \<equiv> quantum (ucast (drop_bit 18 val AND 0x3F)) (ucast (drop_bit 12 val AND 0x3F))
      (ucast (drop_bit 6 val AND 0x3F)) 0"
  shows "ucast (drop_bit 16 val') = a" and "ucast (drop_bit 8 val') = b"
  unfolding val_def val'_def quantum_def mask6
  subgoal by (rule bit_word_eqI; simp add: bit_simps cong: conj_cong; auto dest: bit_imp_le_length)
  subgoal by (rule bit_word_eqI; simp add: bit_simps cong: conj_cong; auto dest: bit_imp_le_length)
  done

lemma bytes1:
  fixes a :: byte
  defines "val \<equiv> push_bit 16 (ucast a) :: 64 word"
  defines "val' \<equiv> quantum (ucast (drop_bit 18 val AND 0x3F)) (ucast (drop_bit 12 val AND 0x3F)) 0 0"
  shows "ucast (drop_bit 16 val') = a"
  unfolding val_def val'_def quantum_def mask6
  by (rule bit_word_eqI; simp add: bit_simps cong: conj_cong; auto dest: bit_imp_le_length)

lemma sextet_index_less: "unat (drop_bit n (val :: 64 word) AND 0x3F) < 64"
proof -
  have "drop_bit n val AND 0x3F \<le> 0x3F" by (rule word_and_le1)
  then have "unat (drop_bit n val AND 0x3F) \<le> unat (0x3F :: 64 word)"
    by (simp add: word_le_nat_alt)
  then show ?thesis by simp
qed

lemma decodeMap_sextet: "decodeMap (sextet val n) = ucast (drop_bit n val AND 0x3F)"
  unfolding sextet_def by (simp add: decodeMap_index [OF sextet_index_less])

lemma sextet_value_valid: "(ucast (drop_bit n (val :: 64 word) AND 0x3F) :: byte) \<noteq> 0xff"
proof -
  have "unat (ucast (drop_bit n val AND 0x3F) :: byte) = unat (drop_bit n val AND 0x3F) mod 256"
    by (simp add: unsigned_ucast_eq take_bit_eq_mod)
  with sextet_index_less [of n val]
  have "unat (ucast (drop_bit n val AND 0x3F) :: byte) < 64" by simp
  then show ?thesis by auto
qed

lemma decodeMap_sextet_valid: "decodeMap (sextet val n) \<noteq> 0xff"
  by (simp add: decodeMap_sextet sextet_value_valid)

lemma decodeMap_special:
  "decodeMap padChar = 0xff" "decodeMap (CHR 0x0A) = 0xff" "decodeMap (CHR 0x0D) = 0xff"
  by (simp_all add: decodeMap_def encodeStd_def padChar_def)

lemma sextet_not_special:
  "sextet val n \<noteq> padChar" "sextet val n \<noteq> CHR 0x0A" "sextet val n \<noteq> CHR 0x0D"
  using decodeMap_sextet_valid [of val n] decodeMap_special by metis+

lemma Encode_no_newlines:
  "filter (\<lambda>c. c \<noteq> CHR 0x0A \<and> c \<noteq> CHR 0x0D) (base64_EncodeToString src) = base64_EncodeToString src"
  by (induction src rule: base64_EncodeToString.induct)
     (simp_all add: Let_def sextet_not_special padChar_def)

lemma decodeQuanta_Encode: "decodeQuanta (base64_EncodeToString src) = Some src"
proof (induction src rule: base64_EncodeToString.induct)
  case (1 a b c src)
  define val :: "64 word" where "val = push_bit 16 (ucast a) OR push_bit 8 (ucast b) OR ucast c"
  have enc: "base64_EncodeToString (a # b # c # src) =
      sextet val 18 # sextet val 12 # sextet val 6 # sextet val 0 # base64_EncodeToString src"
    by (simp add: val_def Let_def)
  have b3: "ucast (drop_bit 16 (take_bit 24 val)) = a" "ucast (drop_bit 8 (take_bit 24 val)) = b"
    "ucast (take_bit 24 val) = c"
    unfolding val_def by (rule bytes3)+
  have q: "quantum (ucast (drop_bit 18 val AND 0x3F)) (ucast (drop_bit 12 val AND 0x3F))
      (ucast (drop_bit 6 val AND 0x3F)) (ucast (drop_bit 0 val AND 0x3F)) = take_bit 24 val"
    using requantum [of val] by simp
  show ?case
    unfolding enc
    by (simp only: decodeQuanta.simps sextet_value_valid decodeMap_sextet q b3 Let_def
        "1.IH" if_False simp_thms option.map)
next
  case (2 a b)
  define val :: "64 word" where "val = push_bit 16 (ucast a) OR push_bit 8 (ucast b)"
  have enc: "base64_EncodeToString [a, b] = [sextet val 18, sextet val 12, sextet val 6, padChar]"
    by (simp add: val_def Let_def)
  have b2: "ucast (drop_bit 16 (quantum (ucast (drop_bit 18 val AND 0x3F))
        (ucast (drop_bit 12 val AND 0x3F)) (ucast (drop_bit 6 val AND 0x3F)) 0)) = a"
     "ucast (drop_bit 8 (quantum (ucast (drop_bit 18 val AND 0x3F))
        (ucast (drop_bit 12 val AND 0x3F)) (ucast (drop_bit 6 val AND 0x3F)) 0)) = b"
    unfolding val_def by (rule bytes2)+
  show ?case
    unfolding enc
    by (simp only: decodeQuanta.simps sextet_value_valid decodeMap_sextet decodeMap_special b2
        Let_def if_False if_True simp_thms)
next
  case (3 a)
  define val :: "64 word" where "val = push_bit 16 (ucast a)"
  have enc: "base64_EncodeToString [a] = [sextet val 18, sextet val 12, padChar, padChar]"
    by (simp add: val_def Let_def)
  have b1: "ucast (drop_bit 16 (quantum (ucast (drop_bit 18 val AND 0x3F))
        (ucast (drop_bit 12 val AND 0x3F)) 0 0)) = a"
    unfolding val_def by (rule bytes1)
  show ?case
    unfolding enc
    by (simp only: decodeQuanta.simps sextet_value_valid decodeMap_sextet decodeMap_special b1
        Let_def if_False if_True simp_thms)
next
  case 4
  show ?case by simp
qed

text \<open>Decoding inverts encoding.\<close>

lemma base64_roundtrip: "base64_DecodeString (base64_EncodeToString src) = Some src"
  by (simp add: base64_DecodeString_def Encode_no_newlines decodeQuanta_Encode)

text \<open>The encoded text has four characters for every three bytes, the last group padded.\<close>

lemma Encode_length: "length (base64_EncodeToString src) = 4 * ((length src + 2) div 3)"
proof (induction src rule: base64_EncodeToString.induct)
  case (1 a b c src)
  have "(length (a # b # c # src) + 2) div 3 = Suc ((length src + 2) div 3)" by simp
  with 1 show ?case by (simp add: Let_def)
qed (simp_all add: Let_def)

text \<open>The encoded text is made of the alphabet and the padding character.\<close>

lemma sextet_in_alphabet: "sextet val n \<in> set encodeStd"
proof -
  have "unat (drop_bit n val AND 0x3F) < length encodeStd"
    using sextet_index_less [of n val] by (simp add: encodeStd_def)
  then show ?thesis unfolding sextet_def by (rule nth_mem)
qed

lemma Encode_alphabet:
  "list_all (\<lambda>c. c \<in> set encodeStd \<or> c = padChar) (base64_EncodeToString src)"
  by (induction src rule: base64_EncodeToString.induct)
     (simp_all add: Let_def sextet_in_alphabet)

section \<open>Encryption and decryption\<close>

lemma char_of_byte_of_char [simp]: "char_of_byte (byte_of_char c) = c"
  by (simp add: char_of_byte_def byte_of_char_def unat_of_nat)

lemma string_bytes [simp]: "string_of_bytes (bytes_of_string s) = s"
  by (induction s) (simp_all add: string_of_bytes_def bytes_of_string_def)

lemma bytes_of_string_Nil_iff [simp]: "bytes_of_string s = [] \<longleftrightarrow> s = []"
  by (simp add: bytes_of_string_def)

lemma length_XORKeyStream [simp]: "length (XORKeyStream c src) = length src"
  by (simp add: XORKeyStream_def)

lemma XORKeyStream_Nil_iff [simp]: "XORKeyStream c src = [] \<longleftrightarrow> src = []"
  by (simp add: XORKeyStream_def enumerate_eq_zip)

text \<open>Applying the same key stream twice gives the input back.\<close>

lemma XORKeyStream_involution [simp]: "XORKeyStream c (XORKeyStream c src) = src"
  by (rule nth_equalityI) (simp_all add: XORKeyStream_def nth_enumerate_eq xor.assoc)

lemma copy_same_length: "length src = length dst \<Longrightarrow> copy dst src = src"
  by (simp add: copy_def)

text \<open>The frame that is encoded: the version byte, the nonce, the ciphertext.\<close>

lemma encryptWithNonce_payload:
  assumes "length key = 32" "length nonce = 24"
  shows "encryptWithNonce ks message key nonce =
     Return (base64_EncodeToString (1 # nonce @ XORKeyStream (ks key nonce) (bytes_of_string message)))"
  using assms
  by (simp add: encryptWithNonce_def NewUnauthenticatedCipher_def Let_def copy_def replicate_append_same
      drop_Suc take_Suc_conv_app_nth)

lemma Encrypt_payload:
  assumes "length key = 32" "length r = 24"
  shows "Encrypt ks (Some r) message key =
     Return (base64_EncodeToString (1 # r @ XORKeyStream (ks key r) (bytes_of_string message)))"
  using assms by (simp add: Encrypt_def copy_same_length encryptWithNonce_payload)

lemma Decrypt_frame:
  assumes "length key = 32" "length nonce = 24"
  shows "Decrypt ks (base64_EncodeToString (1 # nonce @ ct)) key =
     (if ct = [] then Err (ErrPayloadTooSmall 25)
      else Return (string_of_bytes (XORKeyStream (ks key nonce) ct)))"
  using assms by (simp add: Decrypt_def base64_roundtrip NewUnauthenticatedCipher_def Let_def)

text \<open>
  Every message but the empty one is recovered: text of any bytes, multi-byte
  characters included.
\<close>

lemma roundtrip_nonempty:
  assumes "length key = 32" "length r = 24" "message \<noteq> []"
  shows "roundtrip ks (Some r) message key = Return message"
  using assms by (simp add: roundtrip_def Encrypt_payload Decrypt_frame)

lemma demo_encrypt_hi:
  "Encrypt demo_keystream (Some (replicate 24 0)) ''hi'' (replicate 32 0)
     = Return ''AQAAAAAAAAAAAAAAAAAAAAAAAAAAAAAAAGho''"
  by code_simp

lemma demo_decode_hi:
  "base64_DecodeString ''AQAAAAAAAAAAAAAAAAAAAAAAAAAAAAAAAGho'' = Some (1 # replicate 24 0 @ [0x68, 0x68])"
  by code_simp

lemma demo_decrypt_hi:
  "Decrypt demo_keystream ''AQAAAAAAAAAAAAAAAAAAAAAAAAAAAAAAAGho'' (replicate 32 0) = Return ''hi''"
  by code_simp

text \<open>
  C1. Decrypting what \<open>Encrypt\<close> made of a plaintext, with the same 32-byte key, gives
  the plaintext back, the empty plaintext included. The code does not do so for the empty
  plaintext: its frame has exactly 25 bytes, and \<open>Decrypt\<close> rejects every frame of at most
  25 bytes.
\<close>

theorem roundtrip_empty_message:
  assumes "length key = 32" "length r = 24"
  shows "roundtrip ks (Some r) [] key = Err (ErrPayloadTooSmall 25)"
  using assms Decrypt_frame [of key r ks "[]"]
  by (simp add: roundtrip_def Encrypt_payload bytes_of_string_def XORKeyStream_def)

theorem roundtrip_empty_message_witness:
  "length (replicate 32 (0 :: byte)) = 32 \<and> length (replicate 24 (0 :: byte)) = 24
   \<and> roundtrip demo_keystream (Some (replicate 24 0)) [] (replicate 32 0) = Err (ErrPayloadTooSmall 25)"
  using roundtrip_empty_message [of "replicate 32 0" "replicate 24 0" demo_keystream]
  by simp

text \<open>
  C2. \<open>Decrypt\<close> is total: every malformed payload is answered with an error value and
  none with a panic. The code panics on a payload whose decoding is empty, such as the
  empty string: it reads the version byte first.
\<close>

theorem Decrypt_empty_payload_panics: "Decrypt ks [] key = Panic IndexOutOfRange"
  by (simp add: Decrypt_def base64_DecodeString_def)

text \<open>The payloads with an empty decoding are the only ones on which \<open>Decrypt\<close> panics.\<close>

lemma Decrypt_panics_iff:
  "(\<exists>p. Decrypt ks payload key = Panic p) \<longleftrightarrow> base64_DecodeString payload = Some []"
  by (auto simp: Decrypt_def NewUnauthenticatedCipher_def Let_def split: option.splits list.splits)

text \<open>
  C6. For a 32-byte key and the 24 bytes of the random source, \<open>Encrypt\<close> returns the
  standard base64 text of a frame (characters of the standard alphabet, padded with
  \<open>=\<close> to a multiple of four), and that text decodes to the byte 1, then the nonce,
  then a ciphertext that is as long as the plaintext.
\<close>

theorem Encrypt_wire_format:
  assumes "length key = 32" "length r = 24"
  shows "(let ct = XORKeyStream (ks key r) (bytes_of_string message);
              frame = 1 # r @ ct
          in Encrypt ks (Some r) message key = Return (base64_EncodeToString frame)
           \<and> base64_DecodeString (base64_EncodeToString frame) = Some frame
           \<and> length ct = length message
           \<and> list_all (\<lambda>c. c \<in> set encodeStd \<or> c = padChar) (base64_EncodeToString frame)
           \<and> length (base64_EncodeToString frame) = 4 * ((25 + length message + 2) div 3))"
  using assms
  by (simp add: Encrypt_payload base64_roundtrip bytes_of_string_def Let_def Encode_alphabet
      Encode_length)

theorem Encrypt_wire_format_witness:
  "length (replicate 32 (0 :: byte)) = 32 \<and> length (replicate 24 (0 :: byte)) = 24
   \<and> Encrypt demo_keystream (Some (replicate 24 0)) ''hi'' (replicate 32 0)
       = Return ''AQAAAAAAAAAAAAAAAAAAAAAAAAAAAAAAAGho''
   \<and> base64_DecodeString ''AQAAAAAAAAAAAAAAAAAAAAAAAAAAAAAAAGho''
       = Some (1 # replicate 24 0 @ XORKeyStream (demo_keystream (replicate 32 0) (replicate 24 0))
                 (bytes_of_string ''hi''))
   \<and> length (XORKeyStream (demo_keystream (replicate 32 0) (replicate 24 0)) (bytes_of_string ''hi''))
       = length ''hi''"
  using Encrypt_wire_format [of "replicate 32 0" "replicate 24 0" demo_keystream "''hi''"]
    demo_encrypt_hi
  by (simp add: Let_def)

text \<open>
  C7, as amended. For a payload whose base64 decoding is not empty: \<open>Decrypt\<close> fails
  with the version error exactly when the first byte is not 1, whatever the length; with
  the first byte 1 it fails with the too-small error exactly when the decoding has at
  most 25 bytes; otherwise, given a 32-byte key, it returns the bytes from position 25 on,
  combined with the key stream of the key and the nonce in positions 1 to 24.
\<close>

theorem Decrypt_cases:
  assumes "base64_DecodeString payload = Some data" "data \<noteq> []"
  shows "Decrypt ks payload key =
     (if hd data \<noteq> 1 then Err (ErrUnknownVersion (hd data))
      else if length data \<le> 25 then Err (ErrPayloadTooSmall (length data))
      else if length key \<noteq> 32 then Err ErrCreatingCipher
      else Return (string_of_bytes (XORKeyStream (ks key (take 24 (drop 1 data))) (drop 25 data))))"
proof (cases data)
  case Nil
  with assms show ?thesis by simp
next
  case (Cons d0 rest)
  with assms(1) show ?thesis
    by (auto simp: Decrypt_def NewUnauthenticatedCipher_def Let_def)
qed

theorem Decrypt_cases_witness:
  "base64_DecodeString ''AQAAAAAAAAAAAAAAAAAAAAAAAAAAAAAAAGho'' = Some (1 # replicate 24 0 @ [0x68, 0x68])
   \<and> 1 # replicate 24 0 @ [0x68, 0x68 :: byte] \<noteq> []
   \<and> Decrypt demo_keystream ''AQAAAAAAAAAAAAAAAAAAAAAAAAAAAAAAAGho'' (replicate 32 0) = Return ''hi''
   \<and> Return ''hi'' = (Return (string_of_bytes (XORKeyStream
        (demo_keystream (replicate 32 0) (take 24 (drop 1 (1 # replicate 24 0 @ [0x68, 0x68]))))
        (drop 25 (1 # replicate 24 0 @ [0x68, 0x68])))) :: (nip44_error, string) outcome)"
  using Decrypt_cases [OF demo_decode_hi, of demo_keystream "replicate 32 0"]
    demo_decode_hi demo_decrypt_hi
  by simp

text \<open>
  The claim as stated fails where the first byte is not 1 and the decoding has at most
  25 bytes: the payload \<open>Ag==\<close> decodes to the single byte 2, and the answer is the
  version error, not the too-small error.
\<close>

theorem Decrypt_version_before_length:
  "base64_DecodeString ''Ag=='' = Some [2]
   \<and> Decrypt demo_keystream ''Ag=='' (replicate 32 0) = Err (ErrUnknownVersion 2)"
  by code_simp

section \<open>The shared secret\<close>

lemma be_nat_snoc: "be_nat (bs @ [b]) = be_nat bs * 256 + unat b"
  by (simp add: be_nat_def)

lemma be_nat_zeros [simp]: "be_nat (replicate n 0) = 0"
  by (induction n) (simp_all add: be_nat_def)

lemma length_be_bytes [simp]: "length (be_bytes k n) = k"
  by (induction k arbitrary: n) simp_all

text \<open>Reading the big-endian bytes of a number gives the number back, up to their width.\<close>

lemma be_nat_be_bytes: "be_nat (be_bytes k n) = n mod 256 ^ k"
proof (induction k arbitrary: n)
  case 0
  show ?case by (simp add: be_nat_def)
next
  case (Suc k)
  have "be_nat (be_bytes (Suc k) n) = (n div 256 mod 256 ^ k) * 256 + n mod 256"
    by (simp add: be_nat_snoc Suc.IH unat_of_nat)
  also have "\<dots> = n mod 256 ^ Suc k"
    by (simp add: mod_mult2_eq)
  finally show ?case .
qed

lemma be_bytes_small: "n < 256 \<Longrightarrow> be_bytes (Suc k) n = replicate k 0 @ [of_nat n]"
proof (induction k)
  case 0
  then show ?case by simp
next
  case (Suc k)
  have "be_bytes (Suc k) 0 = replicate (Suc k) 0"
    by (induction k) (simp_all add: replicate_append_same)
  with Suc show ?case by simp
qed

lemma curve_N_less: "curve_N < 256 ^ 32"
  by (simp add: curve_N_def)

lemma curve_N_odd: "odd curve_N"
  by (simp add: curve_N_def)

lemma PrivKeyFromBytes_be_bytes: "a < curve_N \<Longrightarrow> PrivKeyFromBytes (be_bytes 32 a) = a"
  using curve_N_less by (simp add: PrivKeyFromBytes_def be_nat_be_bytes)

text \<open>
  With the peer's x-only public key and one's own private key the call succeeds, and
  the secret is the hash of the x-coordinate of the product: whichever of the key and its
  negation the prefix \<open>02\<close> selects, the x-coordinate of the multiple is the same.
\<close>

lemma ComputeSharedSecret_valid_pair:
  assumes L: "ecdh_laws L" and a: "a < curve_N" and b: "0 < b" "b < curve_N"
  shows "ComputeSharedSecret L sha256 (x_only_pubkey_hex L b) (private_key_hex a) =
         Return (sha256 (XBytes L (ScalarMult L a (ScalarMult L b (Generator L)))))"
proof -
  let ?B = "ScalarMult L b (Generator L)"
  from L b have "ParsePubKey L (2 # XBytes L ?B) = Some ?B
       \<or> ParsePubKey L (2 # XBytes L ?B) = Some (Negate L ?B)"
    unfolding ecdh_laws_def by blast
  moreover have "XBytes L (ScalarMult L a (Negate L ?B)) = XBytes L (ScalarMult L a ?B)"
    using L unfolding ecdh_laws_def by metis
  ultimately show ?thesis
    using a
    by (auto simp: ComputeSharedSecret_def private_key_hex_def x_only_pubkey_hex_def hex_roundtrip
        hex_DecodeString_02 PrivKeyFromBytes_be_bytes GenerateSharedSecret_def Let_def
        simp del: append.simps)
qed

text \<open>The stand-in for the curve library satisfies the laws.\<close>

lemma dlog_parse:
  assumes "0 < b" "b < curve_N"
  shows "ParsePubKey dlog_curve (2 # XBytes dlog_curve (ScalarMult dlog_curve b (Generator dlog_curve)))
          = Some (ScalarMult dlog_curve b (Generator dlog_curve))
       \<or> ParsePubKey dlog_curve (2 # XBytes dlog_curve (ScalarMult dlog_curve b (Generator dlog_curve)))
          = Some (Negate dlog_curve (ScalarMult dlog_curve b (Generator dlog_curve)))"
proof -
  let ?N = "int curve_N"
  have sm: "ScalarMult dlog_curve b (Generator dlog_curve) = int b"
    using assms by (simp add: dlog_curve_def)
  have ng: "(- int b) mod ?N = ?N - int b"
    using assms by (simp add: zmod_zminus1_eq_if)
  define m where "m = min b (curve_N - b)"
  have e1: "int b mod ?N = int b" using assms by simp
  have e2: "(- int b) mod ?N = int (curve_N - b)" using assms ng by (simp add: of_nat_diff)
  have e3: "nat (min (int b) (int (curve_N - b))) = m" by (simp add: m_def min_def)
  have xb: "XBytes dlog_curve (int b) = be_bytes 32 m"
    by (simp only: dlog_curve_def btcec.simps e1 e2 e3)
  have m_pos: "0 < m" using assms by (simp add: m_def)
  have "b \<noteq> curve_N - b"
  proof
    assume "b = curve_N - b"
    then have "curve_N = 2 * b" using assms by simp
    then have "even curve_N" by (metis dvd_triv_left)
    with curve_N_odd show False by blast
  qed
  then have m2: "2 * m < curve_N" using assms by (auto simp: m_def min_def)
  then have "m < 256 ^ 32" using curve_N_less by simp
  then have bn: "be_nat (be_bytes 32 m) = m" by (simp add: be_nat_be_bytes)
  have "ParsePubKey dlog_curve (2 # be_bytes 32 m) = Some (int m)"
    using m_pos m2 by (simp add: dlog_curve_def bn)
  moreover have "int m = int b \<or> int m = ?N - int b"
    using assms by (auto simp: m_def min_def)
  moreover have "Negate dlog_curve (int b) = ?N - int b"
    using ng by (simp add: dlog_curve_def)
  ultimately show ?thesis
    unfolding sm xb by auto
qed

lemma dlog_curve_laws: "ecdh_laws dlog_curve"
  unfolding ecdh_laws_def
proof (intro conjI allI impI)
  fix a b
  show "ScalarMult dlog_curve a (ScalarMult dlog_curve b (Generator dlog_curve)) =
        ScalarMult dlog_curve b (ScalarMult dlog_curve a (Generator dlog_curve))"
    by (simp add: dlog_curve_def mod_mult_right_eq mult.commute)
next
  fix a P
  show "ScalarMult dlog_curve a (Negate dlog_curve P) = Negate dlog_curve (ScalarMult dlog_curve a P)"
    by (simp add: dlog_curve_def mod_mult_right_eq mod_minus_eq)
next
  fix P
  show "XBytes dlog_curve (Negate dlog_curve P) = XBytes dlog_curve P"
    by (simp add: dlog_curve_def mod_minus_eq min.commute)
next
  fix b
  assume "0 < b \<and> b < curve_N"
  then show "ParsePubKey dlog_curve (2 # XBytes dlog_curve (ScalarMult dlog_curve b (Generator dlog_curve)))
          = Some (ScalarMult dlog_curve b (Generator dlog_curve))
       \<or> ParsePubKey dlog_curve (2 # XBytes dlog_curve (ScalarMult dlog_curve b (Generator dlog_curve)))
          = Some (Negate dlog_curve (ScalarMult dlog_curve b (Generator dlog_curve)))"
    using dlog_parse by blast
qed

text \<open>
  C8. For two key pairs, each a private scalar in the valid range with its x-only public
  key, the secret computed from B's public key and A's private key equals the one
  computed from A's public key and B's private key; both calls succeed. The curve library
  is a parameter, taken to satisfy \<open>ecdh_laws\<close>.
\<close>

theorem ComputeSharedSecret_symmetric:
  assumes "ecdh_laws L" "0 < a" "a < curve_N" "0 < b" "b < curve_N"
  shows "ComputeSharedSecret L sha256 (x_only_pubkey_hex L b) (private_key_hex a) =
         ComputeSharedSecret L sha256 (x_only_pubkey_hex L a) (private_key_hex b)
       \<and> ComputeSharedSecret L sha256 (x_only_pubkey_hex L b) (private_key_hex a) =
         Return (sha256 (XBytes L (ScalarMult L a (ScalarMult L b (Generator L)))))"
proof -
  have "ScalarMult L a (ScalarMult L b (Generator L)) = ScalarMult L b (ScalarMult L a (Generator L))"
    using assms(1) unfolding ecdh_laws_def by blast
  then show ?thesis
    using assms by (simp add: ComputeSharedSecret_valid_pair)
qed

theorem ComputeSharedSecret_symmetric_witness:
  "ecdh_laws dlog_curve \<and> 0 < (2::nat) \<and> 2 < curve_N \<and> 0 < curve_N - 1 \<and> curve_N - 1 < curve_N
   \<and> ComputeSharedSecret dlog_curve demo_hash (x_only_pubkey_hex dlog_curve (curve_N - 1)) (private_key_hex 2) =
     ComputeSharedSecret dlog_curve demo_hash (x_only_pubkey_hex dlog_curve 2) (private_key_hex (curve_N - 1))
   \<and> ComputeSharedSecret dlog_curve demo_hash (x_only_pubkey_hex dlog_curve (curve_N - 1)) (private_key_hex 2) =
     Return (demo_hash (XBytes dlog_curve
        (ScalarMult dlog_curve 2 (ScalarMult dlog_curve (curve_N - 1) (Generator dlog_curve)))))"
proof -
  have h: "0 < (2::nat)" "2 < curve_N" "0 < curve_N - 1" "curve_N - 1 < curve_N"
    by (simp_all add: curve_N_def)
  show ?thesis
    using ComputeSharedSecret_symmetric [OF dlog_curve_laws h, of demo_hash] dlog_curve_laws h
    by blast
qed

text \<open>
  C9, as amended. \<open>ComputeSharedSecret\<close> returns the private-key decoding error exactly
  when \<open>sk\<close> is not well-formed hexadecimal text; failing that, the public-key decoding
  error exactly when \<open>pub\<close> is not; failing that, the parse error exactly when the
  library rejects the byte 2 followed by the bytes of \<open>pub\<close>; and in every other case
  it succeeds. The private key is neither required to have 32 bytes nor checked against
  the valid range of scalars: at most its first 32 bytes are read and reduced modulo the
  group order.
\<close>

theorem ComputeSharedSecret_outcomes:
  "ComputeSharedSecret L sha256 pub sk =
    (if \<not> well_formed_hex sk then Err ErrDecodingPrivateKey
     else if \<not> well_formed_hex pub then Err ErrDecodingPublicKey
     else (case ParsePubKey L (2 # the (hex_DecodeString pub)) of
             None \<Rightarrow> Err ErrParsingPublicKey
           | Some P \<Rightarrow> Return (sha256 (XBytes L
               (ScalarMult L (be_nat (take 32 (the (hex_DecodeString sk))) mod curve_N) P)))))"
proof (cases "hex_DecodeString sk")
  case None
  then have "\<not> well_formed_hex sk" using hex_DecodeString_defined_iff [of sk] by simp
  with None show ?thesis by (simp add: ComputeSharedSecret_def)
next
  case sk: (Some privKeyBytes)
  then have wsk: "well_formed_hex sk" using hex_DecodeString_defined_iff [of sk] by simp
  show ?thesis
  proof (cases "hex_DecodeString pub")
    case None
    then have "\<not> well_formed_hex pub" using hex_DecodeString_defined_iff [of pub] by simp
    with None sk wsk show ?thesis
      by (simp add: ComputeSharedSecret_def hex_DecodeString_02 Let_def del: append.simps)
  next
    case (Some xs)
    then have "well_formed_hex pub" using hex_DecodeString_defined_iff [of pub] by simp
    with Some sk wsk show ?thesis
      by (simp add: ComputeSharedSecret_def hex_DecodeString_02 Let_def PrivKeyFromBytes_def
          GenerateSharedSecret_def del: append.simps split: option.splits)
  qed
qed

lemma hexdec_one:
  "hex_DecodeString ''0000000000000000000000000000000000000000000000000000000000000001''
     = Some (replicate 31 0 @ [1])"
  by code_simp

lemma hexdec_zero:
  "hex_DecodeString ''0000000000000000000000000000000000000000000000000000000000000000''
     = Some (replicate 32 0)"
  by code_simp

lemma hexdec_short: "hex_DecodeString ''01'' = Some [1]"
  by code_simp

lemma dlog_parse_one: "ParsePubKey dlog_curve (2 # replicate 31 0 @ [1]) = Some 1"
  by (simp add: dlog_curve_def be_nat_snoc curve_N_def)

text \<open>
  The claim as stated fails on the private key. With the public key
  \<open>00\<dots>01\<close>, which the stand-in library accepts (secp256k1 has a point with the
  x-coordinate 1 as well: 8 is a square modulo its prime, which is 7 modulo 8), the
  one-byte private key \<open>01\<close> (not 32 bytes) and the private key of 32 zero bytes
  (the scalar 0, outside the valid range) both lead to a secret, not to an error.
\<close>

theorem ComputeSharedSecret_unchecked_private_key:
  "ComputeSharedSecret dlog_curve demo_hash
      ''0000000000000000000000000000000000000000000000000000000000000001'' ''01''
     = Return (demo_hash (replicate 31 0 @ [1]))
   \<and> ComputeSharedSecret dlog_curve demo_hash
      ''0000000000000000000000000000000000000000000000000000000000000001''
      ''0000000000000000000000000000000000000000000000000000000000000000''
     = Return (demo_hash (replicate 31 0 @ [0]))"
proof -
  have p: "hex_DecodeString (''02'' @ ''0000000000000000000000000000000000000000000000000000000000000001'')
      = Some (2 # replicate 31 0 @ [1])"
    by (simp only: hex_DecodeString_02 hexdec_one option.map)
  have k1: "PrivKeyFromBytes [1] = 1"
    by (simp add: PrivKeyFromBytes_def be_nat_def curve_N_def)
  have k0: "PrivKeyFromBytes (replicate 32 0) = 0"
    by (simp add: PrivKeyFromBytes_def)
  have s1: "GenerateSharedSecret dlog_curve 1 1 = replicate 31 0 @ [1]"
    using be_bytes_small [of 1 31]
    by (simp add: GenerateSharedSecret_def dlog_curve_def curve_N_def)
  have s0: "GenerateSharedSecret dlog_curve 0 1 = replicate 31 0 @ [0]"
    using be_bytes_small [of 0 31]
    by (simp add: GenerateSharedSecret_def dlog_curve_def curve_N_def)
  show ?thesis
    by (simp only: ComputeSharedSecret_def hexdec_short hexdec_zero p option.case Let_def k1 k0
        dlog_parse_one s1 s0 simp_thms)
qed

section \<open>Canonical serialization\<close>

lemma appends_onlyD: "appends_only esc \<Longrightarrow> esc dst s = dst @ esc [] s"
  unfolding appends_only_def by blast

lemma joinWith_Cons:
  "joinWith sep (x # xs) = (if xs = [] then x else x @ sep @ joinWith sep xs)"
  by (cases xs) simp_all

text \<open>The two loops in closed form, for a routine that only appends.\<close>

lemma serializeTagItems_closed:
  assumes "appends_only esc"
  shows "serializeTagItems esc i tag dst =
         dst @ (if tag = [] then []
                else (if i > 0 then '','' else []) @ joinWith '','' (map (esc []) tag))"
proof (induction tag arbitrary: i dst)
  case Nil
  show ?case by simp
next
  case (Cons s tag)
  have e: "esc (if i > 0 then dst @ '','' else dst) s = (if i > 0 then dst @ '','' else dst) @ esc [] s"
    by (rule appends_onlyD [OF assms])
  show ?case
    by (simp add: Cons.IH e joinWith_Cons)
qed

lemma serializeTags_closed:
  assumes "appends_only esc"
  shows "serializeTags esc i tags dst =
         dst @ (if tags = [] then []
                else (if i > 0 then '','' else []) @ joinWith '','' (map (tagText esc) tags))"
proof (induction tags arbitrary: i dst)
  case Nil
  show ?case by simp
next
  case (Cons tag tags)
  show ?case
    by (simp add: Cons.IH serializeTagItems_closed [OF assms] joinWith_Cons tagText_def)
qed

lemma escapeChars_plain: "list_all is_plain s \<Longrightarrow> escapeChars s = s"
  by (induction s) (auto simp: is_plain_def escapeByte_def)

lemma escapeString_appends_only: "appends_only escapeString"
  unfolding appends_only_def escapeString_def by simp

lemma escapeString_quotes_plain: "quotes_plain escapeString"
  unfolding quotes_plain_def escapeString_def by (simp add: escapeChars_plain)

lemma replicate_64: "replicate 64 c = replicate 32 c @ replicate 32 c"
  by (simp flip: replicate_add)

lemma replicate_32:
  "replicate 32 c = [c,c,c,c,c,c,c,c,c,c,c,c,c,c,c,c,c,c,c,c,c,c,c,c,c,c,c,c,c,c,c,c]"
  by (simp add: numeral_eq_Suc)

text \<open>
  C5. For the example event, \<open>Serialize\<close> yields exactly the stated bytes. The escaping
  routine is a parameter, taken to put a string without special characters between quote
  characters as it is. \<open>Serialize\<close> is a function of the event alone, so repeated calls
  give identical bytes.
\<close>

theorem Serialize_example:
  assumes "quotes_plain esc"
  shows "Serialize esc example_event =
    ''[0,\"aaaaaaaaaaaaaaaaaaaaaaaaaaaaaaaaaaaaaaaaaaaaaaaaaaaaaaaaaaaaaaaa\",1700000000,1,[[\"e\",\"abc\"]],\"hi\"]''"
proof -
  have q: "\<And>dst s. list_all is_plain s \<Longrightarrow> esc dst s = dst @ [dquote] @ s @ [dquote]"
    using assms unfolding quotes_plain_def by blast
  have e: "\<And>dst. esc dst ''e'' = dst @ ''\"e\"''"
    by (subst q) (simp_all add: is_plain_def dquote_def backslash_def)
  have abc: "\<And>dst. esc dst ''abc'' = dst @ ''\"abc\"''"
    by (subst q) (simp_all add: is_plain_def dquote_def backslash_def)
  have hi: "\<And>dst. esc dst ''hi'' = dst @ ''\"hi\"''"
    by (subst q) (simp_all add: is_plain_def dquote_def backslash_def)
  show ?thesis
    by (simp add: Serialize_def serializeEventInto_def example_event_def FormatInt_def Itoa_def
        formatBits.simps digits_def e abc hi replicate_64 replicate_32)
qed

theorem Serialize_example_witness:
  "quotes_plain escapeString \<and> Serialize escapeString example_event =
    ''[0,\"aaaaaaaaaaaaaaaaaaaaaaaaaaaaaaaaaaaaaaaaaaaaaaaaaaaaaaaaaaaaaaaa\",1700000000,1,[[\"e\",\"abc\"]],\"hi\"]''"
  using Serialize_example [OF escapeString_quotes_plain] escapeString_quotes_plain
  by blast

text \<open>
  C10. In the canonical bytes the public key stands as it is between two quote
  characters, whatever characters it holds; the escaping routine is applied to the items
  of the tags and to the content, and to nothing else. The routine is a parameter, taken
  only to append to its buffer.
\<close>

theorem pubkey_verbatim:
  assumes "appends_only esc"
  shows "Serialize esc evt =
     ''[0,\"'' @ PubKey evt @ ''\",'' @ FormatInt (sint (CreatedAt evt)) @ '','' @ Itoa (sint (Kind evt))
       @ '',['' @ joinWith '','' (map (tagText esc) (Tags evt)) @ ''],'' @ esc [] (Content evt) @ '']''
   \<and> take (length (PubKey evt)) (drop 4 (Serialize esc evt)) = PubKey evt"
proof -
  have c: "\<And>x. esc x (Content evt) = x @ esc [] (Content evt)"
    by (rule appends_onlyD [OF assms])
  have closed: "Serialize esc evt =
     ''[0,\"'' @ PubKey evt @ ''\",'' @ FormatInt (sint (CreatedAt evt)) @ '','' @ Itoa (sint (Kind evt))
       @ '',['' @ joinWith '','' (map (tagText esc) (Tags evt)) @ ''],'' @ esc [] (Content evt) @ '']''"
    unfolding Serialize_def serializeEventInto_def Let_def serializeTags_closed [OF assms]
    by (subst c) simp
  have "take (length (PubKey evt)) (drop 4 (Serialize esc evt)) = PubKey evt"
    unfolding closed by simp
  with closed show ?thesis by blast
qed

theorem pubkey_verbatim_witness:
  "appends_only escapeString \<and>
   Serialize escapeString \<lparr> ID = [], PubKey = [CHR ''a'', dquote, backslash, CHR 0x01], CreatedAt = 5, Kind = 1,
     Tags = [[[dquote]]], Content = [dquote], Sig = [] \<rparr>
   = ''[0,\"a'' @ [dquote, backslash, CHR 0x01] @ ''\",5,1,[['' @ [dquote, backslash, dquote, dquote]
      @ '']],'' @ [dquote, backslash, dquote, dquote] @ '']''"
  using pubkey_verbatim [OF escapeString_appends_only,
      of "\<lparr> ID = [], PubKey = [CHR ''a'', dquote, backslash, CHR 0x01], CreatedAt = 5, Kind = 1,
     Tags = [[[dquote]]], Content = [dquote], Sig = [] \<rparr>"] escapeString_appends_only
  by (simp add: FormatInt_def Itoa_def formatBits.simps digits_def tagText_def escapeString_def
      escapeByte_def dquote_def backslash_def)

section \<open>The identifier\<close>

text \<open>
  C3. \<open>GetID\<close> is the lowercase hexadecimal rendering of the digest of: the prefix
  (the byte 0x19, the text \<open>Ethereum Signed Message:\<close> and a line feed), then the decimal
  number of canonical bytes, then the canonical bytes, with nothing in between.
\<close>

theorem GetID_digest:
  "GetID keccak esc evt =
     lower_hex (keccak (bytes_of_string
       ((CHR 0x19 # ''Ethereum Signed Message:'' @ [CHR 0x0A])
          @ FormatInt (int (length (Serialize esc evt))) @ Serialize esc evt)))
   \<and> decimal_value (FormatInt (int (length (Serialize esc evt)))) = length (Serialize esc evt)
   \<and> list_all (\<lambda>c. c \<in> set ''0123456789'') (FormatInt (int (length (Serialize esc evt))))"
proof (intro conjI)
  show "GetID keccak esc evt =
     lower_hex (keccak (bytes_of_string
       ((CHR 0x19 # ''Ethereum Signed Message:'' @ [CHR 0x0A])
          @ FormatInt (int (length (Serialize esc evt))) @ Serialize esc evt)))"
    by (simp add: GetID_def prefixedMessage_def hex_EncodeToString_lower_hex Let_def)
  show "decimal_value (FormatInt (int (length (Serialize esc evt)))) = length (Serialize esc evt)"
    by (simp only: FormatInt_nat formatBits_value)
  show "list_all (\<lambda>c. c \<in> set ''0123456789'') (FormatInt (int (length (Serialize esc evt))))"
    unfolding FormatInt_nat by (rule formatBits_digits)
qed

lemma hex_EncodeToString_nth:
  "i < length h \<Longrightarrow>
     hex_EncodeToString h ! (i * 2) = hextable ! unat (drop_bit 4 (h ! i))
   \<and> hex_EncodeToString h ! (i * 2 + 1) = hextable ! unat ((h ! i) AND 0x0f)"
proof (induction h arbitrary: i)
  case Nil
  then show ?case by simp
next
  case (Cons v h)
  show ?case
  proof (cases i)
    case 0
    then show ?thesis by simp
  next
    case (Suc j)
    with Cons.prems have "j < length h" by simp
    from Cons.IH [OF this] Suc show ?thesis by simp
  qed
qed

lemma drop_two:
  assumes "n + 1 < length xs"
  shows "drop n xs = xs ! n # xs ! (n + 1) # drop (n + 2) xs"
proof -
  have "drop n xs = xs ! n # drop (Suc n) xs"
    using assms by (simp add: Cons_nth_drop_Suc)
  also have "drop (Suc n) xs = xs ! Suc n # drop (Suc (Suc n)) xs"
    using assms by (simp add: Cons_nth_drop_Suc)
  finally show ?thesis by simp
qed

text \<open>
  On an identifier of at least 64 characters the loop compares the rendering of the hash
  with the first 64 of them, and looks at no other.
\<close>

lemma CheckID_loop_long:
  assumes "length h = 32" "64 \<le> length ident" "i \<le> 32"
  shows "CheckID_loop h ident i =
         Return (drop (i * 2) (hex_EncodeToString h) = drop (i * 2) (take 64 ident))"
  using assms(3)
proof (induction "32 - i" arbitrary: i)
  case 0
  then have "i = 32" by simp
  then show ?case
    using assms by (simp add: CheckID_loop.simps [of h ident 32])
next
  case (Suc k)
  then have i: "i < 32" by simp
  let ?E = "hex_EncodeToString h"
  let ?I = "take 64 ident"
  have nth: "?E ! (i * 2) = hextable ! unat (drop_bit 4 (h ! i))"
    "?E ! (i * 2 + 1) = hextable ! unat ((h ! i) AND 0x0f)"
    using hex_EncodeToString_nth [of i h] i assms(1) by simp_all
  have dE: "drop (i * 2) ?E = ?E ! (i * 2) # ?E ! (i * 2 + 1) # drop ((i + 1) * 2) ?E"
    using drop_two [of "i * 2" ?E] i assms(1) by simp
  have dI: "drop (i * 2) ?I = ident ! (i * 2) # ident ! (i * 2 + 1) # drop ((i + 1) * 2) ?I"
    using drop_two [of "i * 2" ?I] i assms(2) by simp
  have IH: "CheckID_loop h ident (i + 1) =
      Return (drop ((i + 1) * 2) ?E = drop ((i + 1) * 2) ?I)"
    using Suc.hyps(1) [of "i + 1"] Suc.hyps(2) i by simp
  have rng: "\<not> length ident \<le> i * 2" "\<not> length ident \<le> i * 2 + 1"
    using i assms(2) by simp_all
  have step: "CheckID_loop h ident i =
      (if hextable ! unat (drop_bit 4 (h ! i)) \<noteq> ident ! (i * 2) then Return False
       else if hextable ! unat ((h ! i) AND 0x0f) \<noteq> ident ! (i * 2 + 1) then Return False
       else CheckID_loop h ident (i + 1))"
    using i rng by (subst CheckID_loop.simps) (simp add: Let_def)
  show ?case
    unfolding step IH dE dI nth by auto
qed

text \<open>On a shorter identifier the loop never answers \<open>true\<close>: it answers \<open>false\<close> or panics.\<close>

lemma CheckID_loop_short:
  assumes "length ident < 64" "i * 2 \<le> length ident"
  shows "CheckID_loop h ident i \<noteq> Return True"
  using assms(2)
proof (induction "32 - i" arbitrary: i)
  case 0
  with assms(1) show ?case by simp
next
  case (Suc k)
  then have i: "i < 32" by simp
  show ?case
  proof (cases "length ident \<le> i * 2 + 1")
    case True
    then show ?thesis
      by (subst CheckID_loop.simps) (simp add: i Let_def)
  next
    case False
    then have "(i + 1) * 2 \<le> length ident" by simp
    moreover have "k = 32 - (i + 1)" using Suc.hyps(2) by simp
    ultimately have "CheckID_loop h ident (i + 1) \<noteq> Return True"
      using Suc.hyps(1) by blast
    then show ?thesis
      by (subst CheckID_loop.simps) (simp add: i Let_def)
  qed
qed

text \<open>
  What \<open>CheckID\<close> accepts: the identifiers whose first 64 characters are the computed
  one. On identifiers of exactly 64 characters it is the comparison with \<open>GetID\<close>.
\<close>

lemma CheckID_accepts_iff:
  assumes "length (keccak (bytes_of_string (prefixedMessage (Serialize esc evt)))) = 32"
  shows "CheckID keccak esc evt = Return True \<longleftrightarrow>
         64 \<le> length (ID evt) \<and> take 64 (ID evt) = GetID keccak esc evt"
proof (cases "64 \<le> length (ID evt)")
  case True
  with assms show ?thesis
    using CheckID_loop_long [of "keccak (bytes_of_string (prefixedMessage (Serialize esc evt)))" "ID evt" 0]
    by (auto simp: CheckID_def GetID_def Let_def)
next
  case False
  then show ?thesis
    using CheckID_loop_short [of "ID evt" 0 "keccak (bytes_of_string (prefixedMessage (Serialize esc evt)))"]
    by (simp add: CheckID_def Let_def)
qed

lemma CheckID_64:
  assumes "length (keccak (bytes_of_string (prefixedMessage (Serialize esc evt)))) = 32"
    and "length (ID evt) = 64"
  shows "CheckID keccak esc evt = Return (GetID keccak esc evt = ID evt)"
  using assms
    CheckID_loop_long [of "keccak (bytes_of_string (prefixedMessage (Serialize esc evt)))" "ID evt" 0]
  by (auto simp: CheckID_def GetID_def Let_def)

text \<open>
  C4. \<open>CheckID\<close> returns true exactly when \<open>GetID\<close> of the event equals its stored
  identifier. The code does not do so outside identifiers of 64 characters: on an event
  whose identifier is empty it does not return at all but panics, at the first
  \<open>evt.ID[i*2]\<close>.
\<close>

theorem CheckID_empty_ID_panics:
  "CheckID keccak esc (evt\<lparr>ID := []\<rparr>) = Panic IndexOutOfRange"
  by (simp add: CheckID_def CheckID_loop.simps [of _ _ 0] Let_def)


end
